theory Spec2Isabelle
  imports Main
begin

section \<open>StationWindow: the per-drone sender maps\<close>

text \<open>
  \<^verbatim>\<open>StationWindow\<close> keeps three maps keyed by the drone's name,
  \<^verbatim>\<open>senders\<close>, \<^verbatim>\<open>senderControllers\<close> and \<^verbatim>\<open>senderWindows\<close>, each from
  \<^verbatim>\<open>QString\<close> to a \<^verbatim>\<open>std::unique_ptr\<close>. The slot \<^verbatim>\<open>startSenderHandler\<close> fills them
  for the item selected in the list widget, the slot \<^verbatim>\<open>senderWindowCloseHandler\<close>
  empties them for the name a closing window reports.

  Heap objects are addresses; a \<^verbatim>\<open>unique_ptr\<close> is an address or null. What the two slots
  do beyond changing the maps (objects constructed and destroyed, the message box, the
  window shown, the signal connected) is appended to a trace, in program order. The
  \<^verbatim>\<open>qDebug\<close> lines print only and are left out.
\<close>

type_synonym addr = nat

type_synonym unique_ptr = "addr option"

type_synonym ptr_map = "string \<rightharpoonup> unique_ptr"

datatype event =
    MsgBoxExec string
  | NewSender addr string
  | NewSenderController addr unique_ptr
  | NewSenderWindow addr string unique_ptr
  | DeleteSender addr
  | DeleteSenderController addr
  | DeleteSenderWindow addr
  | Show addr
  | ConnectCloseSelf unique_ptr

text \<open>
  Undefined behaviour of the C++ is a fault of the model: \<^verbatim>\<open>erase\<close> of a container's
  \<^verbatim>\<open>end()\<close> iterator, and a member call through a null \<^verbatim>\<open>unique_ptr\<close>.
\<close>

datatype fault = EraseEnd | NullDeref

text \<open>
  \<open>currentItem\<close> is what \<^verbatim>\<open>ui->listWidget->currentItem()\<close> returns: \<open>None\<close> for the null
  pointer, \<open>Some t\<close> for an item whose \<^verbatim>\<open>text()\<close> is \<open>t\<close>. \<open>next_addr\<close> is the
  address the next \<^verbatim>\<open>new\<close> returns.
\<close>

record stationWindow =
  currentItem :: "string option"
  senders :: ptr_map
  senderControllers :: ptr_map
  senderWindows :: ptr_map
  next_addr :: addr
  trace :: "event list"

definition initial :: stationWindow where
  "initial = \<lparr>currentItem = None, senders = Map.empty, senderControllers = Map.empty,
              senderWindows = Map.empty, next_addr = 0, trace = []\<rparr>"

definition emit :: "event list \<Rightarrow> stationWindow \<Rightarrow> stationWindow" where
  "emit evs st = st\<lparr>trace := trace st @ evs\<rparr>"

definition alloc :: "stationWindow \<Rightarrow> addr \<times> stationWindow" where
  "alloc st = (next_addr st, st\<lparr>next_addr := Suc (next_addr st)\<rparr>)"

subsection \<open>The map operations the slots use\<close>

text \<open>
  \<^verbatim>\<open>m[name]\<close> read: a missing key is inserted with a null pointer first.
\<close>

definition subscript :: "ptr_map \<Rightarrow> string \<Rightarrow> unique_ptr \<times> ptr_map" where
  "subscript m name = (case m name of Some p \<Rightarrow> (p, m) | None \<Rightarrow> (None, m(name \<mapsto> None)))"

text \<open>
  The object a \<^verbatim>\<open>unique_ptr\<close> gives up when it is overwritten or destroyed: the entry's
  former pointee, if the key was there and its pointer was not null.
\<close>

definition owned :: "ptr_map \<Rightarrow> string \<Rightarrow> addr option" where
  "owned m name = (case m name of Some (Some a) \<Rightarrow> Some a | _ \<Rightarrow> None)"

definition deleted :: "(addr \<Rightarrow> event) \<Rightarrow> addr option \<Rightarrow> event list" where
  "deleted del old = (case old of Some a \<Rightarrow> [del a] | None \<Rightarrow> [])"

subsection \<open>startSenderHandler\<close>

text \<open>
  Lines 147-148: \<^verbatim>\<open>new Sender(name, controller->getStation())\<close>, then
  \<^verbatim>\<open>senders[name] = std::move(sender)\<close>; the move assignment stores the new pointer and
  deletes the Sender the entry owned before.
\<close>

definition registerSender :: "string \<Rightarrow> stationWindow \<Rightarrow> stationWindow" where
  "registerSender name st =
     (let (s, st1) = alloc st;
          st2 = emit [NewSender s name] st1;
          old = owned (senders st2) name;
          st3 = st2\<lparr>senders := (senders st2)(name \<mapsto> Some s)\<rparr>
      in emit (deleted DeleteSender old) st3)"

text \<open>
  Lines 149-150: \<^verbatim>\<open>new SenderController(senders[name])\<close>, then
  \<^verbatim>\<open>senderControllers[name] = std::move(senderController)\<close>.
\<close>

definition registerSenderController :: "string \<Rightarrow> stationWindow \<Rightarrow> stationWindow" where
  "registerSenderController name st =
     (let (p, m) = subscript (senders st) name;
          st0 = st\<lparr>senders := m\<rparr>;
          (c, st1) = alloc st0;
          st2 = emit [NewSenderController c p] st1;
          old = owned (senderControllers st2) name;
          st3 = st2\<lparr>senderControllers := (senderControllers st2)(name \<mapsto> Some c)\<rparr>
      in emit (deleted DeleteSenderController old) st3)"

text \<open>
  Lines 151-152: \<^verbatim>\<open>new SenderWindow(name, senderControllers[name])\<close>, then
  \<^verbatim>\<open>senderWindows[name] = std::move(w)\<close>.
\<close>

definition registerSenderWindow :: "string \<Rightarrow> stationWindow \<Rightarrow> stationWindow" where
  "registerSenderWindow name st =
     (let (p, m) = subscript (senderControllers st) name;
          st0 = st\<lparr>senderControllers := m\<rparr>;
          (w, st1) = alloc st0;
          st2 = emit [NewSenderWindow w name p] st1;
          old = owned (senderWindows st2) name;
          st3 = st2\<lparr>senderWindows := (senderWindows st2)(name \<mapsto> Some w)\<rparr>
      in emit (deleted DeleteSenderWindow old) st3)"

text \<open>Lines 147-152 together.\<close>

definition registerTriad :: "string \<Rightarrow> stationWindow \<Rightarrow> stationWindow" where
  "registerTriad name st =
     registerSenderWindow name (registerSenderController name (registerSender name st))"

text \<open>Line 154: \<^verbatim>\<open>senderWindows[name]->show()\<close>.\<close>

definition showWindow :: "string \<Rightarrow> stationWindow \<Rightarrow> fault + stationWindow" where
  "showWindow name st =
     (let (p, m) = subscript (senderWindows st) name;
          st0 = st\<lparr>senderWindows := m\<rparr>
      in case p of None \<Rightarrow> Inl NullDeref | Some w \<Rightarrow> Inr (emit [Show w] st0))"

text \<open>
  Lines 159-160: \<^verbatim>\<open>connect(senderWindows[name].get(), &SenderWindow::closeSelf, ...)\<close>.
\<close>

definition connectCloseSelf :: "string \<Rightarrow> stationWindow \<Rightarrow> stationWindow" where
  "connectCloseSelf name st =
     (let (p, m) = subscript (senderWindows st) name;
          st0 = st\<lparr>senderWindows := m\<rparr>
      in emit [ConnectCloseSelf p] st0)"

text \<open>
  The slot: with no current item it shows the message box and returns (lines 136-142);
  otherwise it takes the item's text as the name and runs lines 147-160.
\<close>

definition startSenderHandler :: "stationWindow \<Rightarrow> fault + stationWindow" where
  "startSenderHandler st =
     (case currentItem st of
        None \<Rightarrow> Inr (emit [MsgBoxExec ''Please select an object first!''] st)
      | Some name \<Rightarrow>
          (case showWindow name (registerTriad name st) of
             Inl f \<Rightarrow> Inl f
           | Inr st' \<Rightarrow> Inr (connectCloseSelf name st')))"

subsection \<open>senderWindowCloseHandler\<close>

text \<open>
  Lines 172-178: the window's entry is erased only when \<^verbatim>\<open>find\<close> found it. Erasing an
  entry destroys its \<^verbatim>\<open>unique_ptr\<close>, which deletes the object it owns.
\<close>

definition eraseSenderWindow :: "string \<Rightarrow> stationWindow \<Rightarrow> stationWindow" where
  "eraseSenderWindow name st =
     (case senderWindows st name of
        None \<Rightarrow> st
      | Some p \<Rightarrow>
          emit (deleted DeleteSenderWindow p) (st\<lparr>senderWindows := (senderWindows st)(name := None)\<rparr>))"

text \<open>
  Lines 180-181 and 183-184: the iterator \<^verbatim>\<open>find\<close> returns goes to \<^verbatim>\<open>erase\<close> unchecked;
  when the key is missing it is \<^verbatim>\<open>end()\<close>, and erasing it is undefined.
\<close>

definition eraseSenderController :: "string \<Rightarrow> stationWindow \<Rightarrow> fault + stationWindow" where
  "eraseSenderController name st =
     (case senderControllers st name of
        None \<Rightarrow> Inl EraseEnd
      | Some p \<Rightarrow>
          Inr (emit (deleted DeleteSenderController p)
                 (st\<lparr>senderControllers := (senderControllers st)(name := None)\<rparr>)))"

definition eraseSender :: "string \<Rightarrow> stationWindow \<Rightarrow> fault + stationWindow" where
  "eraseSender name st =
     (case senders st name of
        None \<Rightarrow> Inl EraseEnd
      | Some p \<Rightarrow>
          Inr (emit (deleted DeleteSender p) (st\<lparr>senders := (senders st)(name := None)\<rparr>)))"

definition senderWindowCloseHandler :: "string \<Rightarrow> stationWindow \<Rightarrow> fault + stationWindow" where
  "senderWindowCloseHandler name st =
     (case eraseSenderController name (eraseSenderWindow name st) of
        Inl f \<Rightarrow> Inl f
      | Inr st' \<Rightarrow> eraseSender name st')"

subsection \<open>Sessions\<close>

text \<open>
  A name is registered when each of the three maps has an entry for it, unregistered
  when none has. Every name is one or the other exactly when the three maps have the same
  keys.
\<close>

definition registered :: "string \<Rightarrow> stationWindow \<Rightarrow> bool" where
  "registered name st \<longleftrightarrow>
     name \<in> dom (senders st) \<and> name \<in> dom (senderControllers st) \<and> name \<in> dom (senderWindows st)"

definition unregistered :: "string \<Rightarrow> stationWindow \<Rightarrow> bool" where
  "unregistered name st \<longleftrightarrow>
     name \<notin> dom (senders st) \<and> name \<notin> dom (senderControllers st) \<and> name \<notin> dom (senderWindows st)"

definition same_keys :: "stationWindow \<Rightarrow> bool" where
  "same_keys st \<longleftrightarrow>
     dom (senders st) = dom (senderControllers st) \<and> dom (senderControllers st) = dom (senderWindows st)"

text \<open>
  The states the window can be in between two slot invocations: it starts with empty maps;
  the user may change the selection; either slot may run to completion.
\<close>

inductive reachable :: "stationWindow \<Rightarrow> bool" where
  start: "reachable initial"
| select: "reachable st \<Longrightarrow> reachable (st\<lparr>currentItem := sel\<rparr>)"
| create: "reachable st \<Longrightarrow> startSenderHandler st = Inr st' \<Longrightarrow> reachable st'"
| close: "reachable st \<Longrightarrow> senderWindowCloseHandler name st = Inr st' \<Longrightarrow> reachable st'"

text \<open>
  Addresses come from \<open>next_addr\<close> in increasing order, so in a reachable window every
  object a map owns lies below it.
\<close>

definition below :: "ptr_map \<Rightarrow> addr \<Rightarrow> bool" where
  "below m k \<longleftrightarrow> (\<forall>name a. m name = Some (Some a) \<longrightarrow> a < k)"

definition fresh :: "stationWindow \<Rightarrow> bool" where
  "fresh st \<longleftrightarrow>
     below (senders st) (next_addr st) \<and> below (senderControllers st) (next_addr st) \<and>
     below (senderWindows st) (next_addr st)"

text \<open>No entry of a reachable window holds a null pointer.\<close>

definition owning :: "stationWindow \<Rightarrow> bool" where
  "owning st \<longleftrightarrow>
     (\<forall>name. senders st name \<noteq> Some None \<and> senderControllers st name \<noteq> Some None \<and>
        senderWindows st name \<noteq> Some None)"

text \<open>
  A map holds an object for a name when the name's entry is there and its pointer is not
  null. A name has a session when each of the three maps holds an object for it.
\<close>

definition holds :: "ptr_map \<Rightarrow> string \<Rightarrow> bool" where
  "holds m name = (case m name of Some (Some a) \<Rightarrow> True | _ \<Rightarrow> False)"

definition session :: "string \<Rightarrow> stationWindow \<Rightarrow> bool" where
  "session name st \<longleftrightarrow>
     holds (senders st) name \<and> holds (senderControllers st) name \<and> holds (senderWindows st) name"

text \<open>The events that are constructor calls.\<close>

fun constructs :: "event \<Rightarrow> bool" where
  "constructs (NewSender _ _) = True"
| "constructs (NewSenderController _ _) = True"
| "constructs (NewSenderWindow _ _ _) = True"
| "constructs _ = False"

subsection \<open>A run with one drone\<close>

text \<open>
  The window after the user selected the item \<^verbatim>\<open>drone1\<close>, after the start button was then
  released, and after the sender window then reported its closing.
\<close>

definition drone1_selected :: stationWindow where
  "drone1_selected = initial\<lparr>currentItem := Some ''drone1''\<rparr>"

definition drone1_running :: stationWindow where
  "drone1_running =
     \<lparr>currentItem = Some ''drone1'',
      senders = [''drone1'' \<mapsto> Some 0],
      senderControllers = [''drone1'' \<mapsto> Some 1],
      senderWindows = [''drone1'' \<mapsto> Some 2],
      next_addr = 3,
      trace = [NewSender 0 ''drone1'', NewSenderController 1 (Some 0),
               NewSenderWindow 2 ''drone1'' (Some 1), Show 2, ConnectCloseSelf (Some 2)]\<rparr>"

definition drone1_closed :: stationWindow where
  "drone1_closed =
     \<lparr>currentItem = Some ''drone1'',
      senders = Map.empty,
      senderControllers = Map.empty,
      senderWindows = Map.empty,
      next_addr = 3,
      trace = [NewSender 0 ''drone1'', NewSenderController 1 (Some 0),
               NewSenderWindow 2 ''drone1'' (Some 1), Show 2, ConnectCloseSelf (Some 2),
               DeleteSenderWindow 2, DeleteSenderController 1, DeleteSender 0]\<rparr>"

text \<open>The window after the start button was released a second time instead.\<close>

definition drone1_restarted :: stationWindow where
  "drone1_restarted =
     \<lparr>currentItem = Some ''drone1'',
      senders = [''drone1'' \<mapsto> Some 3],
      senderControllers = [''drone1'' \<mapsto> Some 4],
      senderWindows = [''drone1'' \<mapsto> Some 5],
      next_addr = 6,
      trace = [NewSender 0 ''drone1'', NewSenderController 1 (Some 0),
               NewSenderWindow 2 ''drone1'' (Some 1), Show 2, ConnectCloseSelf (Some 2),
               NewSender 3 ''drone1'', DeleteSender 0,
               NewSenderController 4 (Some 3), DeleteSenderController 1,
               NewSenderWindow 5 ''drone1'' (Some 4), DeleteSenderWindow 2,
               Show 5, ConnectCloseSelf (Some 5)]\<rparr>"

text \<open>The window after the start button was released with an item of empty text selected.\<close>

definition unnamed_selected :: stationWindow where
  "unnamed_selected = initial\<lparr>currentItem := Some []\<rparr>"

definition unnamed_running :: stationWindow where
  "unnamed_running =
     \<lparr>currentItem = Some [],
      senders = [[] \<mapsto> Some 0],
      senderControllers = [[] \<mapsto> Some 1],
      senderWindows = [[] \<mapsto> Some 2],
      next_addr = 3,
      trace = [NewSender 0 [], NewSenderController 1 (Some 0),
               NewSenderWindow 2 [] (Some 1), Show 2, ConnectCloseSelf (Some 2)]\<rparr>"

section \<open>What the two slots compute\<close>

lemmas step_defs = registerSender_def registerSenderController_def registerSenderWindow_def
  registerTriad_def emit_def alloc_def subscript_def



lemma senders_registerTriad:
  "senders (registerTriad name st) = (senders st)(name \<mapsto> Some (next_addr st))"
  by (simp add: step_defs Let_def)

lemma senderControllers_registerTriad:
  "senderControllers (registerTriad name st) = (senderControllers st)(name \<mapsto> Some (Suc (next_addr st)))"
  by (simp add: step_defs Let_def)

lemma senderWindows_registerTriad:
  "senderWindows (registerTriad name st) = (senderWindows st)(name \<mapsto> Some (Suc (Suc (next_addr st))))"
  by (simp add: step_defs Let_def)

lemma currentItem_registerTriad: "currentItem (registerTriad name st) = currentItem st"
  by (simp add: step_defs Let_def)

lemma next_addr_registerTriad: "next_addr (registerTriad name st) = Suc (Suc (Suc (next_addr st)))"
  by (simp add: step_defs Let_def)

lemma trace_registerTriad:
  "trace (registerTriad name st) =
     trace st @
     NewSender (next_addr st) name # deleted DeleteSender (owned (senders st) name) @
     NewSenderController (Suc (next_addr st)) (Some (next_addr st)) #
       deleted DeleteSenderController (owned (senderControllers st) name) @
     NewSenderWindow (Suc (Suc (next_addr st))) name (Some (Suc (next_addr st))) #
       deleted DeleteSenderWindow (owned (senderWindows st) name)"
  by (simp add: step_defs Let_def owned_def)

lemma startSenderHandler_Some:
  "currentItem st = Some name \<Longrightarrow>
   startSenderHandler st =
     Inr (emit [Show (Suc (Suc (next_addr st))), ConnectCloseSelf (Some (Suc (Suc (next_addr st))))]
            (registerTriad name st))"
  by (simp add: startSenderHandler_def showWindow_def connectCloseSelf_def subscript_def
      senderWindows_registerTriad Let_def emit_def)

lemma startSenderHandler_None:
  "currentItem st = None \<Longrightarrow>
   startSenderHandler st = Inr (emit [MsgBoxExec ''Please select an object first!''] st)"
  by (simp add: startSenderHandler_def)


lemma senderWindowCloseHandler_present:
  "senderWindows st name = Some w \<Longrightarrow> senderControllers st name = Some c \<Longrightarrow>
   senders st name = Some s \<Longrightarrow>
   senderWindowCloseHandler name st =
     Inr (st\<lparr>senders := (senders st)(name := None),
              senderControllers := (senderControllers st)(name := None),
              senderWindows := (senderWindows st)(name := None),
              trace := trace st @ deleted DeleteSenderWindow w @
                deleted DeleteSenderController c @ deleted DeleteSender s\<rparr>)"
  by (simp add: senderWindowCloseHandler_def eraseSenderWindow_def eraseSenderController_def
      eraseSender_def emit_def)

lemma senderWindowCloseHandler_no_controller:
  "senderControllers st name = None \<Longrightarrow> senderWindowCloseHandler name st = Inl EraseEnd"
  by (simp add: senderWindowCloseHandler_def eraseSenderWindow_def eraseSenderController_def
      emit_def split: option.splits)

lemma senderWindowCloseHandler_Inr:
  assumes "senderWindowCloseHandler name st = Inr st'"
  shows "senders st' = (senders st)(name := None)"
    and "senderControllers st' = (senderControllers st)(name := None)"
    and "senderWindows st' = (senderWindows st)(name := None)"
    and "currentItem st' = currentItem st"
    and "next_addr st' = next_addr st"
  using assms
  by (auto simp: senderWindowCloseHandler_def eraseSenderWindow_def eraseSenderController_def
      eraseSender_def emit_def split: option.splits sum.splits)

lemma same_keys_startSenderHandler:
  assumes "same_keys st" and "startSenderHandler st = Inr st'"
  shows "same_keys st'"
proof (cases "currentItem st")
  case None
  with assms show ?thesis
    by (clarsimp simp: startSenderHandler_None emit_def same_keys_def)
next
  case (Some name)
  with assms show ?thesis
    by (clarsimp simp: startSenderHandler_Some emit_def same_keys_def senders_registerTriad
        senderControllers_registerTriad senderWindows_registerTriad)
qed

lemma same_keys_senderWindowCloseHandler:
  assumes "same_keys st" and "senderWindowCloseHandler name st = Inr st'"
  shows "same_keys st'"
  using assms(1) senderWindowCloseHandler_Inr(1-3)[OF assms(2)]
  by (simp add: same_keys_def)

lemma reachable_same_keys: "reachable st \<Longrightarrow> same_keys st"
proof (induction rule: reachable.induct)
  case start
  show ?case by (simp add: same_keys_def initial_def)
next
  case (select st sel)
  then show ?case by (simp add: same_keys_def)
next
  case (create st st')
  then show ?case by (blast intro: same_keys_startSenderHandler)
next
  case (close st name st')
  then show ?case by (blast intro: same_keys_senderWindowCloseHandler)
qed


subsection \<open>Addresses stay fresh, entries stay owned\<close>

lemma below_upd: "below m k \<Longrightarrow> k \<le> a \<Longrightarrow> a < k' \<Longrightarrow> below (m(name \<mapsto> Some a)) k'"
  by (auto simp: below_def) (meson le_less_trans less_trans not_less)

lemma below_del: "below m k \<Longrightarrow> below (m(name := None)) k"
  by (simp add: below_def)

lemma below_not: "below m k \<Longrightarrow> k \<le> a \<Longrightarrow> m name \<noteq> Some (Some a)"
  unfolding below_def by (metis not_less)

lemma fresh_startSenderHandler:
  assumes "fresh st" and "startSenderHandler st = Inr st'"
  shows "fresh st'"
proof (cases "currentItem st")
  case None
  with assms show ?thesis
    by (clarsimp simp: startSenderHandler_None emit_def fresh_def)
next
  case (Some name)
  with assms show ?thesis
    by (clarsimp simp: startSenderHandler_Some emit_def fresh_def senders_registerTriad
        senderControllers_registerTriad senderWindows_registerTriad next_addr_registerTriad
        below_upd)
qed

lemma fresh_senderWindowCloseHandler:
  assumes "fresh st" and "senderWindowCloseHandler name st = Inr st'"
  shows "fresh st'"
  using assms(1) senderWindowCloseHandler_Inr[OF assms(2)]
  by (simp add: fresh_def below_del)

lemma reachable_fresh: "reachable st \<Longrightarrow> fresh st"
proof (induction rule: reachable.induct)
  case start
  show ?case by (simp add: fresh_def below_def initial_def)
next
  case (select st sel)
  then show ?case by (simp add: fresh_def)
next
  case (create st st')
  then show ?case by (blast intro: fresh_startSenderHandler)
next
  case (close st name st')
  then show ?case by (blast intro: fresh_senderWindowCloseHandler)
qed

lemma owning_startSenderHandler:
  assumes "owning st" and "startSenderHandler st = Inr st'"
  shows "owning st'"
proof (cases "currentItem st")
  case None
  with assms show ?thesis
    by (clarsimp simp: startSenderHandler_None emit_def owning_def)
next
  case (Some name)
  with assms show ?thesis
    by (clarsimp simp: startSenderHandler_Some emit_def owning_def senders_registerTriad
        senderControllers_registerTriad senderWindows_registerTriad)
qed

lemma owning_senderWindowCloseHandler:
  assumes "owning st" and "senderWindowCloseHandler name st = Inr st'"
  shows "owning st'"
  using assms(1) senderWindowCloseHandler_Inr [OF assms(2)]
  by (simp add: owning_def)

lemma reachable_owning: "reachable st \<Longrightarrow> owning st"
proof (induction rule: reachable.induct)
  case start
  show ?case by (simp add: owning_def initial_def)
next
  case (select st sel)
  then show ?case by (simp add: owning_def)
next
  case (create st st')
  then show ?case by (blast intro: owning_startSenderHandler)
next
  case (close st name st')
  then show ?case by (blast intro: owning_senderWindowCloseHandler)
qed

lemma owning_entry:
  assumes "owning st"
  shows "name \<in> dom (senders st) \<Longrightarrow> \<exists>a. senders st name = Some (Some a)"
    and "name \<in> dom (senderControllers st) \<Longrightarrow> \<exists>a. senderControllers st name = Some (Some a)"
    and "name \<in> dom (senderWindows st) \<Longrightarrow> \<exists>a. senderWindows st name = Some (Some a)"
  using assms unfolding owning_def by (metis domD not_Some_eq)+

lemma holds_simps [simp]:
  "holds m name \<longleftrightarrow> (\<exists>a. m name = Some (Some a))"
  by (auto simp: holds_def split: option.splits)


subsection \<open>What a destroyed pointer adds to the trace\<close>

lemma filter_constructs_deleted [simp]:
  "filter constructs (deleted DeleteSender old) = []"
  "filter constructs (deleted DeleteSenderController old) = []"
  "filter constructs (deleted DeleteSenderWindow old) = []"
  by (simp_all add: deleted_def split: option.splits)

lemma Show_notin_deleted [simp]:
  "Show a \<notin> set (deleted DeleteSender old)"
  "Show a \<notin> set (deleted DeleteSenderController old)"
  "Show a \<notin> set (deleted DeleteSenderWindow old)"
  by (simp_all add: deleted_def split: option.splits)

lemma MsgBoxExec_notin_deleted [simp]:
  "MsgBoxExec t \<notin> set (deleted DeleteSender old)"
  "MsgBoxExec t \<notin> set (deleted DeleteSenderController old)"
  "MsgBoxExec t \<notin> set (deleted DeleteSenderWindow old)"
  by (simp_all add: deleted_def split: option.splits)

subsection \<open>The run with one drone, step by step\<close>

lemma start_drone1: "startSenderHandler drone1_selected = Inr drone1_running"
  by (simp add: startSenderHandler_Some drone1_selected_def drone1_running_def initial_def
      step_defs Let_def owned_def deleted_def eval_nat_numeral)

lemma close_drone1: "senderWindowCloseHandler ''drone1'' drone1_running = Inr drone1_closed"
  by (simp add: senderWindowCloseHandler_def eraseSenderWindow_def eraseSenderController_def
      eraseSender_def emit_def drone1_running_def drone1_closed_def deleted_def)

lemma close_drone1_again: "senderWindowCloseHandler ''drone1'' drone1_closed = Inl EraseEnd"
  by (simp add: senderWindowCloseHandler_no_controller drone1_closed_def)

lemma restart_drone1: "startSenderHandler drone1_running = Inr drone1_restarted"
  by (simp add: startSenderHandler_Some drone1_running_def drone1_restarted_def
      step_defs Let_def owned_def deleted_def eval_nat_numeral)

lemma start_unnamed: "startSenderHandler unnamed_selected = Inr unnamed_running"
  by (simp add: startSenderHandler_Some unnamed_selected_def unnamed_running_def initial_def
      step_defs Let_def owned_def deleted_def eval_nat_numeral)

lemma reachable_drone1_selected: "reachable drone1_selected"
  unfolding drone1_selected_def by (rule reachable.select) (rule reachable.start)

lemma reachable_drone1_running: "reachable drone1_running"
  by (rule reachable.create [OF reachable_drone1_selected start_drone1])

section \<open>The claims\<close>




text \<open>
  C2 as stated fails: with \<^verbatim>\<open>drone1\<close> registered, a second \<^verbatim>\<open>startSenderHandler\<close>
  completes and replaces the objects 0, 1, 2 of the session by 3, 4, 5.
\<close>

theorem duplicate_counterexample:
  "registered ''drone1'' drone1_running \<and>
   startSenderHandler drone1_running = Inr drone1_restarted \<and>
   senders drone1_running ''drone1'' = Some (Some 0) \<and>
   senderControllers drone1_running ''drone1'' = Some (Some 1) \<and>
   senderWindows drone1_running ''drone1'' = Some (Some 2) \<and>
   senders drone1_restarted ''drone1'' = Some (Some 3) \<and>
   senderControllers drone1_restarted ''drone1'' = Some (Some 4) \<and>
   senderWindows drone1_restarted ''drone1'' = Some (Some 5)"
  using restart_drone1
  by (simp add: registered_def drone1_running_def drone1_restarted_def)

text \<open>
  C2, as amended. Releasing the start button again for a name that is already registered
  returns normally, with no error: the three entries of the name now hold the objects
  constructed by this call, which differ from the ones held before, the objects held before
  are deleted, and the key sets of the three maps are as they were, so the name is still
  registered once.
\<close>

theorem restart_replaces:
  assumes "reachable st" and "currentItem st = Some name" and "registered name st"
  shows "\<exists>st' s0 c0 w0.
      senders st name = Some (Some s0) \<and>
      senderControllers st name = Some (Some c0) \<and>
      senderWindows st name = Some (Some w0) \<and>
      startSenderHandler st = Inr st' \<and>
      senders st' name = Some (Some (next_addr st)) \<and>
      senderControllers st' name = Some (Some (Suc (next_addr st))) \<and>
      senderWindows st' name = Some (Some (Suc (Suc (next_addr st)))) \<and>
      s0 \<noteq> next_addr st \<and> c0 \<noteq> Suc (next_addr st) \<and> w0 \<noteq> Suc (Suc (next_addr st)) \<and>
      dom (senders st') = dom (senders st) \<and>
      dom (senderControllers st') = dom (senderControllers st) \<and>
      dom (senderWindows st') = dom (senderWindows st) \<and>
      trace st' = trace st @
        [NewSender (next_addr st) name, DeleteSender s0,
         NewSenderController (Suc (next_addr st)) (Some (next_addr st)), DeleteSenderController c0,
         NewSenderWindow (Suc (Suc (next_addr st))) name (Some (Suc (next_addr st))),
         DeleteSenderWindow w0,
         Show (Suc (Suc (next_addr st))), ConnectCloseSelf (Some (Suc (Suc (next_addr st))))]"
proof -
  from assms(1) have f: "fresh st" by (rule reachable_fresh)
  from assms(1) have o: "owning st" by (rule reachable_owning)
  from assms(3) owning_entry [OF o, of name] obtain s0 c0 w0 where
    e: "senders st name = Some (Some s0)" "senderControllers st name = Some (Some c0)"
      "senderWindows st name = Some (Some w0)"
    unfolding registered_def by blast
  have s: "s0 \<noteq> next_addr st"
    using f e(1) below_not [of "senders st" "next_addr st" "next_addr st" name]
    by (auto simp: fresh_def)
  have c: "c0 \<noteq> Suc (next_addr st)"
    using f e(2) below_not [of "senderControllers st" "next_addr st" "Suc (next_addr st)" name]
    by (auto simp: fresh_def)
  have w: "w0 \<noteq> Suc (Suc (next_addr st))"
    using f e(3) below_not [of "senderWindows st" "next_addr st" "Suc (Suc (next_addr st))" name]
    by (auto simp: fresh_def)
  have d: "insert name (dom (senders st)) = dom (senders st)"
    "insert name (dom (senderControllers st)) = dom (senderControllers st)"
    "insert name (dom (senderWindows st)) = dom (senderWindows st)"
    using assms(3) by (auto simp: registered_def)
  show ?thesis
    using s c w d e
    by (simp add: startSenderHandler_Some [OF assms(2)] emit_def senders_registerTriad
        senderControllers_registerTriad senderWindows_registerTriad trace_registerTriad
        owned_def deleted_def)
qed

theorem restart_replaces_witness:
  "reachable drone1_running \<and> currentItem drone1_running = Some ''drone1'' \<and>
   registered ''drone1'' drone1_running \<and>
   (\<exists>st'. startSenderHandler drone1_running = Inr st' \<and>
      senders st' ''drone1'' = Some (Some 3) \<and>
      senderControllers st' ''drone1'' = Some (Some 4) \<and>
      senderWindows st' ''drone1'' = Some (Some 5) \<and>
      dom (senders st') = {''drone1''})"
proof -
  have c: "currentItem drone1_running = Some ''drone1''"
    by (simp add: drone1_running_def)
  have r: "registered ''drone1'' drone1_running"
    by (simp add: registered_def drone1_running_def)
  have n: "next_addr drone1_running = 3" "dom (senders drone1_running) = {''drone1''}"
    by (simp_all add: drone1_running_def)
  from restart_replaces [OF reachable_drone1_running c r] obtain st' where
    "startSenderHandler drone1_running = Inr st'"
    "senders st' ''drone1'' = Some (Some (next_addr drone1_running))"
    "senderControllers st' ''drone1'' = Some (Some (Suc (next_addr drone1_running)))"
    "senderWindows st' ''drone1'' = Some (Some (Suc (Suc (next_addr drone1_running))))"
    "dom (senders st') = dom (senders drone1_running)"
    by blast
  then show ?thesis
    using reachable_drone1_running c r by (simp add: n)
qed

text \<open>
  C3, on the code. For a name that is in none of the maps, \<^verbatim>\<open>senderWindowCloseHandler\<close>
  skips the guarded erase of \<^verbatim>\<open>senderWindows\<close> and then erases the \<^verbatim>\<open>end()\<close> iterator
  of \<^verbatim>\<open>senderControllers\<close>: undefined behaviour, not a no-op.
\<close>

theorem close_unregistered_faults:
  "unregistered name st \<Longrightarrow> senderWindowCloseHandler name st = Inl EraseEnd"
  by (rule senderWindowCloseHandler_no_controller) (auto simp: unregistered_def)

theorem close_unregistered_faults_witness:
  "unregistered ''drone1'' initial \<and> senderWindowCloseHandler ''drone1'' initial = Inl EraseEnd"
proof -
  have u: "unregistered ''drone1'' initial"
    by (simp add: unregistered_def initial_def)
  from u close_unregistered_faults [OF u] show ?thesis by simp
qed

text \<open>
  C4. When an item is selected, the constructor calls of \<^verbatim>\<open>startSenderHandler\<close> are, in
  this order: the Sender; the SenderController, given the map entry that holds that Sender;
  the SenderWindow, given the map entry that holds that SenderController.
\<close>

theorem construction_order:
  "currentItem st = Some name \<Longrightarrow>
   \<exists>st' evs. startSenderHandler st = Inr st' \<and> trace st' = trace st @ evs \<and>
     filter constructs evs =
       [NewSender (next_addr st) name,
        NewSenderController (Suc (next_addr st)) (Some (next_addr st)),
        NewSenderWindow (Suc (Suc (next_addr st))) name (Some (Suc (next_addr st)))]"
  by (simp add: startSenderHandler_Some emit_def trace_registerTriad)

theorem construction_order_witness:
  "currentItem drone1_selected = Some ''drone1'' \<and>
   (\<exists>st' evs. startSenderHandler drone1_selected = Inr st' \<and>
      trace st' = trace drone1_selected @ evs \<and>
      filter constructs evs =
        [NewSender 0 ''drone1'', NewSenderController 1 (Some 0),
         NewSenderWindow 2 ''drone1'' (Some 1)])"
proof -
  have c: "currentItem drone1_selected = Some ''drone1''"
    by (simp add: drone1_selected_def)
  have n: "next_addr drone1_selected = 0"
    by (simp add: drone1_selected_def initial_def)
  from construction_order [OF c] show ?thesis
    using c by (simp add: n eval_nat_numeral)
qed

text \<open>
  C5 as stated fails: the name is not removed only in the last step. With \<^verbatim>\<open>drone1\<close>
  registered, the first erase (line 176) already removes the name from
  \<^verbatim>\<open>senderWindows\<close>, while its SenderController and its Sender are still registered and
  not yet destroyed.
\<close>

theorem first_erase_counterexample:
  "registered ''drone1'' drone1_running \<and>
   senderWindows (eraseSenderWindow ''drone1'' drone1_running) ''drone1'' = None \<and>
   senderControllers (eraseSenderWindow ''drone1'' drone1_running) ''drone1'' = Some (Some 1) \<and>
   senders (eraseSenderWindow ''drone1'' drone1_running) ''drone1'' = Some (Some 0) \<and>
   trace (eraseSenderWindow ''drone1'' drone1_running) =
     trace drone1_running @ [DeleteSenderWindow 2] \<and>
   \<not> registered ''drone1'' (eraseSenderWindow ''drone1'' drone1_running) \<and>
   \<not> unregistered ''drone1'' (eraseSenderWindow ''drone1'' drone1_running)"
  by (simp add: eraseSenderWindow_def emit_def deleted_def registered_def unregistered_def
      drone1_running_def)

text \<open>
  C5, as amended. For a name whose three entries own objects,
  \<^verbatim>\<open>senderWindowCloseHandler\<close> deletes the SenderWindow, then the SenderController, then
  the Sender, and removes the name step by step: each erase removes the name from one map as
  it destroys that map's object. The name leaves \<^verbatim>\<open>senderWindows\<close> in the first step,
  \<^verbatim>\<open>senderControllers\<close> in the second and \<^verbatim>\<open>senders\<close> in the last; only after the last
  step is it in none of the maps.
\<close>

theorem destruction_order:
  assumes "senderWindows st name = Some (Some w)"
    and "senderControllers st name = Some (Some c)"
    and "senders st name = Some (Some s)"
  shows "\<exists>st1 st2 st3.
      eraseSenderWindow name st = st1 \<and>
      eraseSenderController name st1 = Inr st2 \<and>
      eraseSender name st2 = Inr st3 \<and>
      senderWindowCloseHandler name st = Inr st3 \<and>
      st1 = st\<lparr>senderWindows := (senderWindows st)(name := None),
                trace := trace st @ [DeleteSenderWindow w]\<rparr> \<and>
      st2 = st1\<lparr>senderControllers := (senderControllers st)(name := None),
                 trace := trace st @ [DeleteSenderWindow w, DeleteSenderController c]\<rparr> \<and>
      st3 = st2\<lparr>senders := (senders st)(name := None),
                 trace := trace st @
                   [DeleteSenderWindow w, DeleteSenderController c, DeleteSender s]\<rparr> \<and>
      name \<notin> dom (senderWindows st1) \<and> holds (senderControllers st1) name \<and>
      holds (senders st1) name \<and>
      name \<notin> dom (senderWindows st2) \<and> name \<notin> dom (senderControllers st2) \<and>
      holds (senders st2) name \<and>
      unregistered name st3"
  using assms
  by (simp add: senderWindowCloseHandler_def eraseSenderWindow_def eraseSenderController_def
      eraseSender_def emit_def deleted_def unregistered_def domIff)

theorem destruction_order_witness:
  "senderWindows drone1_running ''drone1'' = Some (Some 2) \<and>
   senderControllers drone1_running ''drone1'' = Some (Some 1) \<and>
   senders drone1_running ''drone1'' = Some (Some 0) \<and>
   (\<exists>st1 st2.
      eraseSenderWindow ''drone1'' drone1_running = st1 \<and>
      eraseSenderController ''drone1'' st1 = Inr st2 \<and>
      eraseSender ''drone1'' st2 = Inr drone1_closed \<and>
      trace st1 = trace drone1_running @ [DeleteSenderWindow 2] \<and>
      trace st2 = trace drone1_running @ [DeleteSenderWindow 2, DeleteSenderController 1] \<and>
      ''drone1'' \<notin> dom (senderWindows st1) \<and> holds (senders st1) ''drone1'' \<and>
      ''drone1'' \<notin> dom (senderControllers st2) \<and> holds (senders st2) ''drone1'') \<and>
   senderWindowCloseHandler ''drone1'' drone1_running = Inr drone1_closed \<and>
   unregistered ''drone1'' drone1_closed"
proof -
  have h: "senderWindows drone1_running ''drone1'' = Some (Some 2)"
    "senderControllers drone1_running ''drone1'' = Some (Some 1)"
    "senders drone1_running ''drone1'' = Some (Some 0)"
    by (simp_all add: drone1_running_def)
  from destruction_order [OF h] obtain st1 st2 st3 where
    e: "eraseSenderWindow ''drone1'' drone1_running = st1"
      "eraseSenderController ''drone1'' st1 = Inr st2"
      "eraseSender ''drone1'' st2 = Inr st3"
      "senderWindowCloseHandler ''drone1'' drone1_running = Inr st3"
    and s1: "st1 = drone1_running\<lparr>senderWindows := (senderWindows drone1_running)(''drone1'' := None),
                trace := trace drone1_running @ [DeleteSenderWindow 2]\<rparr>"
    and s2: "st2 = st1\<lparr>senderControllers := (senderControllers drone1_running)(''drone1'' := None),
                 trace := trace drone1_running @ [DeleteSenderWindow 2, DeleteSenderController 1]\<rparr>"
    and s3: "st3 = st2\<lparr>senders := (senders drone1_running)(''drone1'' := None),
                 trace := trace drone1_running @
                   [DeleteSenderWindow 2, DeleteSenderController 1, DeleteSender 0]\<rparr>"
    and d: "''drone1'' \<notin> dom (senderWindows st1)" "holds (senders st1) ''drone1''"
      "''drone1'' \<notin> dom (senderControllers st2)" "holds (senders st2) ''drone1''"
      "unregistered ''drone1'' st3"
    by blast
  have c: "st3 = drone1_closed"
    unfolding s3 s2 s1 by (simp add: drone1_running_def drone1_closed_def)
  have t: "trace st1 = trace drone1_running @ [DeleteSenderWindow 2]"
    "trace st2 = trace drone1_running @ [DeleteSenderWindow 2, DeleteSenderController 1]"
    unfolding s2 s1 by simp_all
  from h e d t show ?thesis unfolding c by blast
qed

text \<open>
  C6. With no current item, \<^verbatim>\<open>startSenderHandler\<close> runs the message box and returns:
  the maps are unchanged, nothing is constructed, and the trace gains the notice only.
\<close>

theorem no_selection_notice:
  "currentItem st = None \<Longrightarrow>
   startSenderHandler st =
     Inr (st\<lparr>trace := trace st @ [MsgBoxExec ''Please select an object first!'']\<rparr>)"
  by (simp add: startSenderHandler_None emit_def)

theorem no_selection_notice_witness:
  "currentItem initial = None \<and>
   startSenderHandler initial =
     Inr (initial\<lparr>trace := [MsgBoxExec ''Please select an object first!'']\<rparr>)"
proof -
  have c: "currentItem initial = None"
    by (simp add: initial_def)
  have t: "trace initial = []"
    by (simp add: initial_def)
  from no_selection_notice [OF c] c show ?thesis by (simp add: t)
qed

text \<open>
  C7, on the code. After \<^verbatim>\<open>drone1\<close> is started, the first closing signal removes it
  from the three maps; a second closing signal for the same name erases \<^verbatim>\<open>end()\<close>.
\<close>

theorem close_twice_faults:
  "startSenderHandler drone1_selected = Inr drone1_running \<and>
   senderWindowCloseHandler ''drone1'' drone1_running = Inr drone1_closed \<and>
   unregistered ''drone1'' drone1_closed \<and>
   senderWindowCloseHandler ''drone1'' drone1_closed = Inl EraseEnd"
  using start_drone1 close_drone1 close_drone1_again
  by (simp add: unregistered_def drone1_closed_def)

text \<open>
  C8. \<^verbatim>\<open>startSenderHandler\<close> never shows a window before the session is registered.
  With no current item it shows none. With an item selected, lines 147-152 construct the
  Sender, the SenderController and the SenderWindow and store each in its map under the
  name, emitting no \<open>Show\<close>; \<^verbatim>\<open>show()\<close> is then called in that state, on the window just
  stored, and \<open>Show\<close> follows every event of the registration.
\<close>

theorem show_after_registration:
  "(currentItem st = None \<longrightarrow>
      (\<exists>st'. startSenderHandler st = Inr st' \<and>
         trace st' = trace st @ [MsgBoxExec ''Please select an object first!''])) \<and>
   (currentItem st = Some name \<longrightarrow>
      (\<exists>evs s c w.
         s = next_addr st \<and> c = Suc s \<and> w = Suc c \<and>
         evs = NewSender s name # deleted DeleteSender (owned (senders st) name) @
               NewSenderController c (Some s) #
                 deleted DeleteSenderController (owned (senderControllers st) name) @
               NewSenderWindow w name (Some c) #
                 deleted DeleteSenderWindow (owned (senderWindows st) name) \<and>
         trace (registerTriad name st) = trace st @ evs \<and> (\<forall>a. Show a \<notin> set evs) \<and>
         senders (registerTriad name st) = (senders st)(name \<mapsto> Some s) \<and>
         senderControllers (registerTriad name st) = (senderControllers st)(name \<mapsto> Some c) \<and>
         senderWindows (registerTriad name st) = (senderWindows st)(name \<mapsto> Some w) \<and>
         session name (registerTriad name st) \<and> registered name (registerTriad name st) \<and>
         showWindow name (registerTriad name st) = Inr (emit [Show w] (registerTriad name st)) \<and>
         startSenderHandler st =
           Inr (connectCloseSelf name (emit [Show w] (registerTriad name st))) \<and>
         trace (connectCloseSelf name (emit [Show w] (registerTriad name st))) =
           trace st @ evs @ [Show w, ConnectCloseSelf (Some w)]))"
  by (simp add: startSenderHandler_def showWindow_def connectCloseSelf_def subscript_def
      emit_def registered_def session_def senders_registerTriad senderControllers_registerTriad
      senderWindows_registerTriad trace_registerTriad)

theorem show_after_registration_witness:
  "currentItem initial = None \<and>
   (\<exists>st'. startSenderHandler initial = Inr st' \<and>
      trace st' = [MsgBoxExec ''Please select an object first!'']) \<and>
   currentItem drone1_selected = Some ''drone1'' \<and>
   trace (registerTriad ''drone1'' drone1_selected) =
     [NewSender 0 ''drone1'', NewSenderController 1 (Some 0),
      NewSenderWindow 2 ''drone1'' (Some 1)] \<and>
   senders (registerTriad ''drone1'' drone1_selected) = [''drone1'' \<mapsto> Some 0] \<and>
   senderControllers (registerTriad ''drone1'' drone1_selected) = [''drone1'' \<mapsto> Some 1] \<and>
   senderWindows (registerTriad ''drone1'' drone1_selected) = [''drone1'' \<mapsto> Some 2] \<and>
   session ''drone1'' (registerTriad ''drone1'' drone1_selected) \<and>
   showWindow ''drone1'' (registerTriad ''drone1'' drone1_selected) =
     Inr (emit [Show 2] (registerTriad ''drone1'' drone1_selected)) \<and>
   startSenderHandler drone1_selected =
     Inr (connectCloseSelf ''drone1'' (emit [Show 2] (registerTriad ''drone1'' drone1_selected))) \<and>
   trace (connectCloseSelf ''drone1'' (emit [Show 2] (registerTriad ''drone1'' drone1_selected))) =
     [NewSender 0 ''drone1'', NewSenderController 1 (Some 0),
      NewSenderWindow 2 ''drone1'' (Some 1), Show 2, ConnectCloseSelf (Some 2)]"
proof -
  have c0: "currentItem initial = None" and t0: "trace initial = []"
    by (simp_all add: initial_def)
  have c1: "currentItem drone1_selected = Some ''drone1''" and t1: "trace drone1_selected = []"
    and n1: "next_addr drone1_selected = 0"
    and m1: "senders drone1_selected = Map.empty" "senderControllers drone1_selected = Map.empty"
      "senderWindows drone1_selected = Map.empty"
    by (simp_all add: drone1_selected_def initial_def)
  from show_after_registration [of initial] c0 t0
  have a: "\<exists>st'. startSenderHandler initial = Inr st' \<and>
      trace st' = [MsgBoxExec ''Please select an object first!'']"
    by simp
  from show_after_registration [of drone1_selected "''drone1''"] c1 a c0
  show ?thesis
    by (simp add: t1 n1 m1 owned_def deleted_def eval_nat_numeral)
qed

text \<open>
  C9 as stated fails: with an item of empty text selected in the empty window,
  \<^verbatim>\<open>startSenderHandler\<close> completes and the empty name is registered.
\<close>

theorem empty_name_counterexample:
  "currentItem unnamed_selected = Some [] \<and>
   startSenderHandler unnamed_selected = Inr unnamed_running \<and>
   dom (senders unnamed_selected) = {} \<and>
   dom (senders unnamed_running) = {[]} \<and>
   registered [] unnamed_running"
  using start_unnamed
  by (simp add: registered_def unnamed_selected_def unnamed_running_def initial_def)

text \<open>
  C9, as amended. When the current item's text is the empty string,
  \<^verbatim>\<open>startSenderHandler\<close> does not fail: it constructs the Sender, the SenderController and
  the SenderWindow, registers them under the empty name, which joins the keys of the three
  maps, shows the window and shows no message box. A non-empty name is not a precondition.
\<close>

theorem empty_name_registers:
  "currentItem st = Some [] \<Longrightarrow>
   \<exists>st' evs s c w.
     startSenderHandler st = Inr st' \<and>
     s = next_addr st \<and> c = Suc s \<and> w = Suc c \<and>
     evs = NewSender s [] # deleted DeleteSender (owned (senders st) []) @
           NewSenderController c (Some s) #
             deleted DeleteSenderController (owned (senderControllers st) []) @
           NewSenderWindow w [] (Some c) #
             deleted DeleteSenderWindow (owned (senderWindows st) []) @
           [Show w, ConnectCloseSelf (Some w)] \<and>
     trace st' = trace st @ evs \<and> (\<forall>t. MsgBoxExec t \<notin> set evs) \<and>
     senders st' = (senders st)([] \<mapsto> Some s) \<and>
     senderControllers st' = (senderControllers st)([] \<mapsto> Some c) \<and>
     senderWindows st' = (senderWindows st)([] \<mapsto> Some w) \<and>
     next_addr st' = Suc w \<and> currentItem st' = Some [] \<and>
     session [] st' \<and> registered [] st' \<and>
     dom (senders st') = insert [] (dom (senders st)) \<and>
     dom (senderControllers st') = insert [] (dom (senderControllers st)) \<and>
     dom (senderWindows st') = insert [] (dom (senderWindows st))"
  by (simp add: startSenderHandler_Some emit_def registered_def session_def
      senders_registerTriad senderControllers_registerTriad senderWindows_registerTriad
      trace_registerTriad next_addr_registerTriad currentItem_registerTriad)

theorem empty_name_registers_witness:
  "currentItem unnamed_selected = Some [] \<and>
   startSenderHandler unnamed_selected = Inr unnamed_running \<and>
   session [] unnamed_running \<and>
   trace unnamed_running =
     [NewSender 0 [], NewSenderController 1 (Some 0), NewSenderWindow 2 [] (Some 1),
      Show 2, ConnectCloseSelf (Some 2)]"
proof -
  have c: "currentItem unnamed_selected = Some []"
    by (simp add: unnamed_selected_def)
  have i: "senders unnamed_selected = Map.empty" "senderControllers unnamed_selected = Map.empty"
    "senderWindows unnamed_selected = Map.empty" "next_addr unnamed_selected = 0"
    "trace unnamed_selected = []"
    by (simp_all add: unnamed_selected_def initial_def)
  from empty_name_registers [OF c] obtain st' where
    r: "startSenderHandler unnamed_selected = Inr st'"
    and f: "trace st' = [NewSender 0 [], NewSenderController (Suc 0) (Some 0),
        NewSenderWindow (Suc (Suc 0)) [] (Some (Suc 0)), Show (Suc (Suc 0)),
        ConnectCloseSelf (Some (Suc (Suc 0)))]"
      "senders st' = [[] \<mapsto> Some 0]" "senderControllers st' = [[] \<mapsto> Some (Suc 0)]"
      "senderWindows st' = [[] \<mapsto> Some (Suc (Suc 0))]"
      "next_addr st' = Suc (Suc (Suc 0))" "currentItem st' = Some []"
    and s: "session [] st'"
    by (auto simp: i owned_def deleted_def)
  have e: "st' = unnamed_running"
    by (rule stationWindow.equality) (simp_all add: f unnamed_running_def eval_nat_numeral)
  from c r s f(1) show ?thesis unfolding e by (simp add: eval_nat_numeral)
qed

text \<open>
  C10. In every reachable state the three maps have the same keys, and a completed run of
  either slot keeps it so: after \<^verbatim>\<open>startSenderHandler\<close> the selected name is a key of all
  three maps, after \<^verbatim>\<open>senderWindowCloseHandler\<close> the closed name is a key of none.
\<close>

theorem same_keys_between_operations:
  assumes "reachable st"
  shows "same_keys st \<and>
     (\<forall>st'. startSenderHandler st = Inr st' \<longrightarrow>
        same_keys st' \<and> (\<forall>name. currentItem st = Some name \<longrightarrow> registered name st')) \<and>
     (\<forall>name st'. senderWindowCloseHandler name st = Inr st' \<longrightarrow>
        same_keys st' \<and> unregistered name st')"
proof -
  from assms have k: "same_keys st" by (rule reachable_same_keys)
  have a: "same_keys st' \<and> (\<forall>name. currentItem st = Some name \<longrightarrow> registered name st')"
    if h: "startSenderHandler st = Inr st'" for st'
  proof
    from k h show "same_keys st'" by (rule same_keys_startSenderHandler)
    show "\<forall>name. currentItem st = Some name \<longrightarrow> registered name st'"
      using h
      by (clarsimp simp: startSenderHandler_Some emit_def registered_def senders_registerTriad
          senderControllers_registerTriad senderWindows_registerTriad)
  qed
  have b: "same_keys st' \<and> unregistered name st'"
    if h: "senderWindowCloseHandler name st = Inr st'" for name st'
  proof
    from k h show "same_keys st'" by (rule same_keys_senderWindowCloseHandler)
    show "unregistered name st'"
      using senderWindowCloseHandler_Inr(1-3) [OF h] by (simp add: unregistered_def)
  qed
  from k a b show ?thesis by blast
qed

theorem same_keys_between_operations_witness:
  "reachable drone1_selected \<and> same_keys drone1_selected \<and>
   startSenderHandler drone1_selected = Inr drone1_running \<and>
   same_keys drone1_running \<and> registered ''drone1'' drone1_running \<and>
   senderWindowCloseHandler ''drone1'' drone1_running = Inr drone1_closed \<and>
   same_keys drone1_closed \<and> unregistered ''drone1'' drone1_closed"
proof -
  have c: "currentItem drone1_selected = Some ''drone1''"
    by (simp add: drone1_selected_def)
  from same_keys_between_operations [OF reachable_drone1_selected] start_drone1 c
  have a: "same_keys drone1_selected \<and> same_keys drone1_running \<and>
      registered ''drone1'' drone1_running"
    by blast
  from same_keys_between_operations [OF reachable_drone1_running] close_drone1
  have b: "same_keys drone1_closed \<and> unregistered ''drone1'' drone1_closed"
    by blast
  from a b reachable_drone1_selected start_drone1 close_drone1 show ?thesis by blast
qed

end
